theory Spec2Isabelle
  imports Complex_Main
begin

section \<open>Go library functions the program calls\<close>

subsection \<open>Package strings, on ASCII text\<close>

text \<open>
  A Go string is a sequence of bytes, here a \<^typ>\<open>string\<close>. The functions of package
  \<^verbatim>\<open>strings\<close> below are written out for ASCII text, where Go works byte by byte; a string
  with a byte of \<open>0x80\<close> or more goes through Go's Unicode tables, which are no part of the
  program. \<open>isASCII\<close> marks the strings on which the definitions are the library's.
\<close>

definition isASCII :: "string \<Rightarrow> bool" where
  "isASCII s = list_all (\<lambda>c. (of_char c :: nat) < 128) s"

text \<open>The table \<^verbatim>\<open>asciiSpace\<close> of package strings: tab, line feed, vertical tab, form feed,
  carriage return and the space character.\<close>

definition asciiSpace :: "char \<Rightarrow> bool" where
  "asciiSpace c =
     (c = CHR 0x09 \<or> c = CHR 0x0A \<or> c = CHR 0x0B \<or> c = CHR 0x0C \<or> c = CHR 0x0D \<or> c = CHR '' '')"

definition TrimSpace :: "string \<Rightarrow> string" where
  "TrimSpace s = rev (dropWhile asciiSpace (rev (dropWhile asciiSpace s)))"

text \<open>\<^verbatim>\<open>strings.ReplaceAll(s, old, new)\<close>: every non-overlapping occurrence of \<open>old\<close>, found
  from the left, becomes \<open>new\<close>; an empty \<open>old\<close> matches before every character and at the
  end.\<close>

function replace_from :: "string \<Rightarrow> string \<Rightarrow> string \<Rightarrow> string" where
  "replace_from old new [] = []"
| "replace_from old new (c # cs) =
     (if old \<noteq> [] \<and> take (length old) (c # cs) = old
      then new @ replace_from old new (drop (length old) (c # cs))
      else c # replace_from old new cs)"
  by pat_completeness auto
termination
  by (relation "measure (\<lambda>(old, new, s). length s)") (auto simp: neq_Nil_conv)

definition ReplaceAll :: "string \<Rightarrow> string \<Rightarrow> string \<Rightarrow> string" where
  "ReplaceAll s old new =
     (if old = [] then new @ concat (map (\<lambda>c. c # new) s) else replace_from old new s)"

definition toUpper_byte :: "char \<Rightarrow> char" where
  "toUpper_byte c =
     (if (97::nat) \<le> of_char c \<and> of_char c \<le> (122::nat)
      then char_of (of_char c - (32::nat)) else c)"

definition toLower_byte :: "char \<Rightarrow> char" where
  "toLower_byte c =
     (if (65::nat) \<le> of_char c \<and> of_char c \<le> (90::nat)
      then char_of (of_char c + (32::nat)) else c)"

definition ToUpper :: "string \<Rightarrow> string" where
  "ToUpper s = map toUpper_byte s"

definition ToLower :: "string \<Rightarrow> string" where
  "ToLower s = map toLower_byte s"

subsection \<open>Package strconv and fmt: float64\<close>

text \<open>
  A \<^verbatim>\<open>float64\<close> is a finite number, an infinity or a NaN. \<^verbatim>\<open>strconv.ParseFloat(v, 64)\<close>
  and \<^verbatim>\<open>fmt.Sprintf("%.0f%%", f*100)\<close> belong to Go's library: the program's functions take
  them as the parameters \<open>ParseFloat\<close> (the error or the number) and \<open>FormatPct\<close>.
  \<open>f64_ge\<close> is the comparison \<^verbatim>\<open>>=\<close> of IEEE 754: false as soon as one side is a NaN.
\<close>

datatype float64 = Finite real | PosInf | NegInf | NaN

datatype NumError = ErrSyntax | ErrRange

fun f64_ge :: "float64 \<Rightarrow> float64 \<Rightarrow> bool" where
  "f64_ge NaN _ = False"
| "f64_ge _ NaN = False"
| "f64_ge PosInf _ = True"
| "f64_ge NegInf NegInf = True"
| "f64_ge NegInf _ = False"
| "f64_ge (Finite a) (Finite b) = (b \<le> a)"
| "f64_ge (Finite a) PosInf = False"
| "f64_ge (Finite a) NegInf = True"

section \<open>Package ofcom: Interpret\<close>

text \<open>A raw row is a Go \<^verbatim>\<open>map[string]string\<close>: a key is present with a value, or absent.\<close>

type_synonym row = "string \<rightharpoonup> string"

record OperatorCoverage =
  Name :: string
  Voice :: string
  FourG :: string
  FiveG :: string
  HasVoice :: bool
  HasFourG :: bool
  HasFiveG :: bool

record OverallCoverage =
  AnyOperator :: string
  FourGCount :: int
  FiveGCount :: int

record MobileSummary =
  Postcode :: string
  Operators :: "OperatorCoverage list"
  Overall :: OverallCoverage

text \<open>The closure \<^verbatim>\<open>get\<close>: the value of the first key that is present with a non-empty
  value, the empty string when there is none.\<close>

fun get :: "row \<Rightarrow> string list \<Rightarrow> string" where
  "get row [] = ''''"
| "get row (k # keys) =
     (case row k of
        Some v \<Rightarrow> if v \<noteq> '''' then v else get row keys
      | None \<Rightarrow> get row keys)"

definition covered :: "(string \<Rightarrow> NumError + float64) \<Rightarrow> row \<Rightarrow> string list \<Rightarrow> bool" where
  "covered ParseFloat row keys =
     (let v = get row keys in
      if v = '''' then False
      else case ParseFloat v of
             Inl err \<Rightarrow> False
           | Inr f \<Rightarrow> f64_ge f (Finite (5 / 10)))"

definition pct ::
  "(string \<Rightarrow> NumError + float64) \<Rightarrow> (float64 \<Rightarrow> string) \<Rightarrow> row \<Rightarrow> string list \<Rightarrow> string" where
  "pct ParseFloat FormatPct row keys =
     (let v = get row keys in
      if v = '''' then ''N/A''
      else case ParseFloat v of
             Inl err \<Rightarrow> ''N/A''
           | Inr f \<Rightarrow> FormatPct f)"

text \<open>The counting loop over the operators, with the two counters as the state.\<close>

fun count_loop :: "OperatorCoverage list \<Rightarrow> int \<times> int \<Rightarrow> int \<times> int" where
  "count_loop [] (fourGCount, fiveGCount) = (fourGCount, fiveGCount)"
| "count_loop (op # ops) (fourGCount, fiveGCount) =
     count_loop ops
       (if HasFourG op then fourGCount + 1 else fourGCount,
        if HasFiveG op then fiveGCount + 1 else fiveGCount)"

definition Interpret ::
  "(string \<Rightarrow> NumError + float64) \<Rightarrow> (float64 \<Rightarrow> string) \<Rightarrow> row \<Rightarrow> MobileSummary" where
  "Interpret ParseFloat FormatPct row =
     (let operators =
        [\<lparr>Name = ''EE'',
          Voice = pct ParseFloat FormatPct row [''ee_voice'', ''ee_voice_indoor''],
          FourG = pct ParseFloat FormatPct row [''ee_4g'', ''ee4g''],
          FiveG = pct ParseFloat FormatPct row [''ee_5g'', ''ee5g''],
          HasVoice = covered ParseFloat row [''ee_voice'', ''ee_voice_indoor''],
          HasFourG = covered ParseFloat row [''ee_4g'', ''ee4g''],
          HasFiveG = covered ParseFloat row [''ee_5g'', ''ee5g'']\<rparr>,
         \<lparr>Name = ''O2'',
          Voice = pct ParseFloat FormatPct row [''o2_voice'', ''o2_voice_indoor''],
          FourG = pct ParseFloat FormatPct row [''o2_4g'', ''o24g''],
          FiveG = pct ParseFloat FormatPct row [''o2_5g'', ''o25g''],
          HasVoice = covered ParseFloat row [''o2_voice'', ''o2_voice_indoor''],
          HasFourG = covered ParseFloat row [''o2_4g'', ''o24g''],
          HasFiveG = covered ParseFloat row [''o2_5g'', ''o25g'']\<rparr>,
         \<lparr>Name = ''Three'',
          Voice = pct ParseFloat FormatPct row [''three_voice'', ''three_voice_indoor''],
          FourG = pct ParseFloat FormatPct row [''three_4g'', ''three4g''],
          FiveG = pct ParseFloat FormatPct row [''three_5g'', ''three5g''],
          HasVoice = covered ParseFloat row [''three_voice'', ''three_voice_indoor''],
          HasFourG = covered ParseFloat row [''three_4g'', ''three4g''],
          HasFiveG = covered ParseFloat row [''three_5g'', ''three5g'']\<rparr>,
         \<lparr>Name = ''Vodafone'',
          Voice = pct ParseFloat FormatPct row [''vodafone_voice'', ''vodafone_voice_indoor''],
          FourG = pct ParseFloat FormatPct row [''vodafone_4g'', ''vodafone4g''],
          FiveG = pct ParseFloat FormatPct row [''vodafone_5g'', ''vodafone5g''],
          HasVoice = covered ParseFloat row [''vodafone_voice'', ''vodafone_voice_indoor''],
          HasFourG = covered ParseFloat row [''vodafone_4g'', ''vodafone4g''],
          HasFiveG = covered ParseFloat row [''vodafone_5g'', ''vodafone5g'']\<rparr>];
        (fourGCount, fiveGCount) = count_loop operators (0, 0)
      in \<lparr>Postcode = get row [''postcode''],
          Operators = operators,
          Overall = \<lparr>AnyOperator = pct ParseFloat FormatPct row [''any_operator'', ''any_coverage''],
                     FourGCount = fourGCount,
                     FiveGCount = fiveGCount\<rparr>\<rparr>)"

subsection \<open>The claim's reading of the covered flag\<close>

text \<open>
  The specification's words, to compare \<open>get\<close> and \<open>covered\<close> with: the resolved value is
  the value of the first candidate key that is present with a non-empty value, and a
  metric is covered when that value parses to a number of at least one half.
\<close>

definition first_present_nonempty :: "row \<Rightarrow> string list \<Rightarrow> string option" where
  "first_present_nonempty row keys =
     (case filter (\<lambda>k. case row k of Some v \<Rightarrow> v \<noteq> '''' | None \<Rightarrow> False) keys of
        [] \<Rightarrow> None
      | k # _ \<Rightarrow> row k)"

definition covered_claim :: "(string \<Rightarrow> NumError + float64) \<Rightarrow> row \<Rightarrow> string list \<Rightarrow> bool" where
  "covered_claim ParseFloat row keys =
     (\<exists>v f. first_present_nonempty row keys = Some v \<and> ParseFloat v = Inr f \<and>
            f64_ge f (Finite (5 / 10)))"

text \<open>A parser for the examples: a table of a few strings with the number each denotes;
  every other string is a syntax error.\<close>

definition table_ParseFloat :: "string \<Rightarrow> NumError + float64" where
  "table_ParseFloat v =
     (if v = ''0.5'' then Inr (Finite (5 / 10))
      else if v = ''0.499999'' then Inr (Finite (499999 / 1000000))
      else if v = ''0.8'' then Inr (Finite (8 / 10))
      else if v = ''0.3'' then Inr (Finite (3 / 10))
      else Inl ErrSyntax)"

section \<open>Package postcode: Normalise\<close>

text \<open>\<^verbatim>\<open>Normalise\<close> trims the postcode, deletes its space characters and uppercases it.
  \<^verbatim>\<open>QueryPostcode\<close> computes its key \<^verbatim>\<open>pc\<close> by the same expression.\<close>

definition Normalise :: "string \<Rightarrow> string" where
  "Normalise pc = ToUpper (ReplaceAll (TrimSpace pc) '' '' '''')"

definition QueryPostcode_pc :: "string \<Rightarrow> string" where
  "QueryPostcode_pc postcode = ToUpper (ReplaceAll (TrimSpace postcode) '' '' '''')"

definition isLower :: "char \<Rightarrow> bool" where
  "isLower c = ((97::nat) \<le> of_char c \<and> of_char c \<le> (122::nat))"

definition isUpper :: "char \<Rightarrow> bool" where
  "isUpper c = ((65::nat) \<le> of_char c \<and> of_char c \<le> (90::nat))"

section \<open>Package ofcom: ingestion\<close>

subsection \<open>Column names\<close>

text \<open>The first loop of \<^verbatim>\<open>buildDatabase\<close> over the header row: it overwrites
  \<^verbatim>\<open>headers[i]\<close> for every index in turn.\<close>

function headers_loop :: "nat \<Rightarrow> string list \<Rightarrow> string list" where
  "headers_loop i headers =
     (if i < length headers
      then headers_loop (Suc i)
             (headers[i := ToLower (TrimSpace (ReplaceAll (headers ! i) '' '' ''_''))])
      else headers)"
  by pat_completeness auto
termination
  by (relation "measure (\<lambda>(i, headers). length headers - i)") auto

declare headers_loop.simps [simp del]

text \<open>The expression the loop stores in \<^verbatim>\<open>headers[i]\<close>.\<close>

definition column_name :: "string \<Rightarrow> string" where
  "column_name h = ToLower (TrimSpace (ReplaceAll h '' '' ''_''))"

text \<open>The specification's words for a column name, to compare the loop with: lowercase,
  and an underscore for every character that is not a letter or a digit.\<close>

definition isAlnum :: "char \<Rightarrow> bool" where
  "isAlnum c =
     (let n = (of_char c :: nat) in
      (48 \<le> n \<and> n \<le> 57) \<or> (65 \<le> n \<and> n \<le> 90) \<or> (97 \<le> n \<and> n \<le> 122))"

definition spec_column_name :: "string \<Rightarrow> string" where
  "spec_column_name h = map (\<lambda>c. if isAlnum c then toLower_byte c else CHR ''_'') h"

(*THEOREMS*)

section \<open>Properties of Interpret\<close>

lemma first_present_nonempty_Nil: "first_present_nonempty row [] = None"
  by (simp add: first_present_nonempty_def)

lemma first_present_nonempty_Cons:
  "first_present_nonempty row (k # keys) =
     (case row k of
        Some v \<Rightarrow> if v \<noteq> '''' then Some v else first_present_nonempty row keys
      | None \<Rightarrow> first_present_nonempty row keys)"
  by (simp add: first_present_nonempty_def split: option.splits)

lemma get_first_present:
  "get row keys = (case first_present_nonempty row keys of None \<Rightarrow> '''' | Some v \<Rightarrow> v)"
  by (induction keys)
    (auto simp: first_present_nonempty_Nil first_present_nonempty_Cons split: option.splits)

lemma first_present_nonempty_ne:
  "first_present_nonempty row keys = Some v \<Longrightarrow> v \<noteq> ''''"
  by (induction keys)
    (auto simp: first_present_nonempty_Nil first_present_nonempty_Cons
      split: option.splits if_splits)

lemma covered_iff_claim: "covered PF row keys = covered_claim PF row keys"
  by (auto simp: covered_def covered_claim_def get_first_present Let_def
      dest: first_present_nonempty_ne split: option.splits sum.splits)

lemma get_empty_absent: "get (r(k \<mapsto> '''')) keys = get (r(k := None)) keys"
  by (induction keys) (auto split: option.splits)

lemma count_loop_filter:
  "count_loop ops (a, b) =
     (a + int (length (filter HasFourG ops)), b + int (length (filter HasFiveG ops)))"
  by (induction ops arbitrary: a b) auto

text \<open>
  Claim C2. For every row, whatever keys it has, the operators of the summary are four, named
  EE, O2, Three and Vodafone in this order; so the names are the same for any two rows.
\<close>

theorem Interpret_operators_fixed:
  "map Name (Operators (Interpret PF FMT row)) = [''EE'', ''O2'', ''Three'', ''Vodafone'']
   \<and> length (Operators (Interpret PF FMT row)) = 4
   \<and> map Name (Operators (Interpret PF FMT row)) = map Name (Operators (Interpret PF FMT row'))"
  by (simp add: Interpret_def Let_def split: prod.splits)

text \<open>
  Claim C4. For every row, the summary's FourGCount is the number of operators of the
  returned list whose HasFourG flag is set, and FiveGCount the number whose HasFiveG flag is
  set.
\<close>

theorem Interpret_counts_match_flags:
  "FourGCount (Overall (Interpret PF FMT row)) =
     int (length (filter HasFourG (Operators (Interpret PF FMT row))))
   \<and> FiveGCount (Overall (Interpret PF FMT row)) =
     int (length (filter HasFiveG (Operators (Interpret PF FMT row))))"
  by (simp add: Interpret_def Let_def count_loop_filter del: count_loop.simps)

text \<open>
  Claim C10. For every row and every key, the summary of the row with the key set to the
  empty string is the summary of the row with the key removed.
\<close>

theorem Interpret_empty_is_absent:
  "Interpret PF FMT (r(k \<mapsto> '''')) = Interpret PF FMT (r(k := None))"
  by (simp add: Interpret_def covered_def pct_def get_empty_absent del: get.simps)

text \<open>
  Claim C1. For every row, operator and metric, the covered flag of the summary holds exactly
  when the first candidate column that is present with a non-empty value has a value that
  ParseFloat accepts, as a number of at least 0.5. No such column, or a value that ParseFloat
  rejects, gives a flag that is not set; a finite number \<open>x\<close> gives the flag \<open>0.5 \<le> x\<close>, so
  0.499999 is not covered and 0.5 is. The comparison is the one of float64: a NaN is not
  covered and the positive infinity is.
\<close>

theorem Interpret_covered_threshold:
  "HasVoice (Operators (Interpret PF FMT row) ! 0) = covered_claim PF row [''ee_voice'', ''ee_voice_indoor'']
   \<and> HasFourG (Operators (Interpret PF FMT row) ! 0) = covered_claim PF row [''ee_4g'', ''ee4g'']
   \<and> HasFiveG (Operators (Interpret PF FMT row) ! 0) = covered_claim PF row [''ee_5g'', ''ee5g'']
   \<and> HasVoice (Operators (Interpret PF FMT row) ! 1) = covered_claim PF row [''o2_voice'', ''o2_voice_indoor'']
   \<and> HasFourG (Operators (Interpret PF FMT row) ! 1) = covered_claim PF row [''o2_4g'', ''o24g'']
   \<and> HasFiveG (Operators (Interpret PF FMT row) ! 1) = covered_claim PF row [''o2_5g'', ''o25g'']
   \<and> HasVoice (Operators (Interpret PF FMT row) ! 2) = covered_claim PF row [''three_voice'', ''three_voice_indoor'']
   \<and> HasFourG (Operators (Interpret PF FMT row) ! 2) = covered_claim PF row [''three_4g'', ''three4g'']
   \<and> HasFiveG (Operators (Interpret PF FMT row) ! 2) = covered_claim PF row [''three_5g'', ''three5g'']
   \<and> HasVoice (Operators (Interpret PF FMT row) ! 3) = covered_claim PF row [''vodafone_voice'', ''vodafone_voice_indoor'']
   \<and> HasFourG (Operators (Interpret PF FMT row) ! 3) = covered_claim PF row [''vodafone_4g'', ''vodafone4g'']
   \<and> HasFiveG (Operators (Interpret PF FMT row) ! 3) = covered_claim PF row [''vodafone_5g'', ''vodafone5g'']
   \<and> (\<forall>keys. covered PF row keys = covered_claim PF row keys)
   \<and> (\<forall>keys. first_present_nonempty row keys = None \<longrightarrow> \<not> covered PF row keys)
   \<and> (\<forall>keys v e. first_present_nonempty row keys = Some v \<and> PF v = Inl e \<longrightarrow> \<not> covered PF row keys)
   \<and> (\<forall>keys v x. first_present_nonempty row keys = Some v \<and> PF v = Inr (Finite x)
         \<longrightarrow> covered PF row keys = (5 / 10 \<le> x))
   \<and> (\<forall>keys v. first_present_nonempty row keys = Some v \<and> PF v = Inr (Finite (499999 / 1000000))
         \<longrightarrow> \<not> covered PF row keys)
   \<and> (\<forall>keys v. first_present_nonempty row keys = Some v \<and> PF v = Inr (Finite (5 / 10))
         \<longrightarrow> covered PF row keys)
   \<and> (\<forall>keys v. first_present_nonempty row keys = Some v \<and> PF v = Inr NaN
         \<longrightarrow> \<not> covered PF row keys)
   \<and> (\<forall>keys v. first_present_nonempty row keys = Some v \<and> PF v = Inr PosInf
         \<longrightarrow> covered PF row keys)"
proof -
  have flags:
    "HasVoice (Operators (Interpret PF FMT row) ! 0) = covered PF row [''ee_voice'', ''ee_voice_indoor'']"
    "HasFourG (Operators (Interpret PF FMT row) ! 0) = covered PF row [''ee_4g'', ''ee4g'']"
    "HasFiveG (Operators (Interpret PF FMT row) ! 0) = covered PF row [''ee_5g'', ''ee5g'']"
    "HasVoice (Operators (Interpret PF FMT row) ! 1) = covered PF row [''o2_voice'', ''o2_voice_indoor'']"
    "HasFourG (Operators (Interpret PF FMT row) ! 1) = covered PF row [''o2_4g'', ''o24g'']"
    "HasFiveG (Operators (Interpret PF FMT row) ! 1) = covered PF row [''o2_5g'', ''o25g'']"
    "HasVoice (Operators (Interpret PF FMT row) ! 2) = covered PF row [''three_voice'', ''three_voice_indoor'']"
    "HasFourG (Operators (Interpret PF FMT row) ! 2) = covered PF row [''three_4g'', ''three4g'']"
    "HasFiveG (Operators (Interpret PF FMT row) ! 2) = covered PF row [''three_5g'', ''three5g'']"
    "HasVoice (Operators (Interpret PF FMT row) ! 3) = covered PF row [''vodafone_voice'', ''vodafone_voice_indoor'']"
    "HasFourG (Operators (Interpret PF FMT row) ! 3) = covered PF row [''vodafone_4g'', ''vodafone4g'']"
    "HasFiveG (Operators (Interpret PF FMT row) ! 3) = covered PF row [''vodafone_5g'', ''vodafone5g'']"
    by (simp_all add: Interpret_def Let_def split: prod.splits)
  have absent: "\<not> covered PF row keys" if "first_present_nonempty row keys = None" for keys
    using that by (simp add: covered_iff_claim covered_claim_def)
  have unparsable: "\<not> covered PF row keys"
    if "first_present_nonempty row keys = Some v \<and> PF v = Inl e" for keys v e
    using that by (simp add: covered_iff_claim covered_claim_def)
  have finite: "covered PF row keys = (5 / 10 \<le> x)"
    if "first_present_nonempty row keys = Some v \<and> PF v = Inr (Finite x)" for keys v x
    using that by (simp add: covered_iff_claim covered_claim_def)
  have below: "\<not> covered PF row keys"
    if "first_present_nonempty row keys = Some v \<and> PF v = Inr (Finite (499999 / 1000000))" for keys v
    using finite [OF that] by simp
  have at: "covered PF row keys"
    if "first_present_nonempty row keys = Some v \<and> PF v = Inr (Finite (5 / 10))" for keys v
    using finite [OF that] by simp
  have nan: "\<not> covered PF row keys"
    if "first_present_nonempty row keys = Some v \<and> PF v = Inr NaN" for keys v
    using that by (simp add: covered_iff_claim covered_claim_def)
  have inf: "covered PF row keys"
    if "first_present_nonempty row keys = Some v \<and> PF v = Inr PosInf" for keys v
    using that by (simp add: covered_iff_claim covered_claim_def)
  show ?thesis
    using absent unparsable finite below at nan inf
    by (simp only: flags covered_iff_claim) blast
qed

text \<open>The theorem at a row where EE's 4G value is 0.5, O2's 4G value is empty under the first
  alias and 0.499999 under the second, and no 5G column is present.\<close>

theorem Interpret_covered_threshold_witness:
  "first_present_nonempty [''ee_4g'' \<mapsto> ''0.5'', ''o24g'' \<mapsto> ''0.499999'', ''o2_4g'' \<mapsto> '''']
     [''ee_4g'', ''ee4g''] = Some ''0.5''
   \<and> table_ParseFloat ''0.5'' = Inr (Finite (5 / 10))
   \<and> HasFourG (Operators (Interpret table_ParseFloat (\<lambda>f. ''%'')
        [''ee_4g'' \<mapsto> ''0.5'', ''o24g'' \<mapsto> ''0.499999'', ''o2_4g'' \<mapsto> '''']) ! 0)
   \<and> first_present_nonempty [''ee_4g'' \<mapsto> ''0.5'', ''o24g'' \<mapsto> ''0.499999'', ''o2_4g'' \<mapsto> '''']
     [''o2_4g'', ''o24g''] = Some ''0.499999''
   \<and> table_ParseFloat ''0.499999'' = Inr (Finite (499999 / 1000000))
   \<and> \<not> HasFourG (Operators (Interpret table_ParseFloat (\<lambda>f. ''%'')
        [''ee_4g'' \<mapsto> ''0.5'', ''o24g'' \<mapsto> ''0.499999'', ''o2_4g'' \<mapsto> '''']) ! 1)
   \<and> first_present_nonempty [''ee_4g'' \<mapsto> ''0.5'', ''o24g'' \<mapsto> ''0.499999'', ''o2_4g'' \<mapsto> '''']
     [''ee_5g'', ''ee5g''] = None
   \<and> \<not> HasFiveG (Operators (Interpret table_ParseFloat (\<lambda>f. ''%'')
        [''ee_4g'' \<mapsto> ''0.5'', ''o24g'' \<mapsto> ''0.499999'', ''o2_4g'' \<mapsto> '''']) ! 0)"
  using Interpret_covered_threshold [of table_ParseFloat "\<lambda>f. ''%''"
      "[''ee_4g'' \<mapsto> ''0.5'', ''o24g'' \<mapsto> ''0.499999'', ''o2_4g'' \<mapsto> '''']"]
  by (simp add: covered_claim_def first_present_nonempty_def table_ParseFloat_def)

section \<open>Properties of the string functions and of Normalise\<close>

lemma replace_from_single:
  "replace_from [c] new s = concat (map (\<lambda>x. if x = c then new else [x]) s)"
  by (induction s) auto

lemma ReplaceAll_single:
  "ReplaceAll s [c] new = concat (map (\<lambda>x. if x = c then new else [x]) s)"
  by (simp add: ReplaceAll_def replace_from_single)

lemma ReplaceAll_delete: "ReplaceAll s [c] [] = filter (\<lambda>x. x \<noteq> c) s"
  by (induction s) (auto simp: ReplaceAll_single)

lemma ReplaceAll_char: "ReplaceAll s [c] [d] = map (\<lambda>x. if x = c then d else x) s"
  by (induction s) (auto simp: ReplaceAll_single)

lemma char_eq_of_char: "c = d \<longleftrightarrow> (of_char c :: nat) = of_char d"
  by (simp add: of_char_eq_iff)

lemma asciiSpace_of_char:
  "asciiSpace c \<longleftrightarrow> (of_char c :: nat) \<in> {9, 10, 11, 12, 13, 32}"
  unfolding asciiSpace_def by (subst (1 2 3 4 5 6) char_eq_of_char) auto

lemma toUpper_byte_idem: "toUpper_byte (toUpper_byte c) = toUpper_byte c"
  by (auto simp: toUpper_byte_def of_char_of)

lemma asciiSpace_toUpper: "asciiSpace (toUpper_byte c) = asciiSpace c"
  by (auto simp: asciiSpace_of_char toUpper_byte_def of_char_of)

lemma toUpper_byte_space: "toUpper_byte c = CHR '' '' \<longleftrightarrow> c = CHR '' ''"
  by (subst (1 2) char_eq_of_char) (auto simp: toUpper_byte_def of_char_of)

lemma toUpper_byte_not_lower: "\<not> isLower (toUpper_byte c)"
  by (auto simp: isLower_def toUpper_byte_def of_char_of)

lemma toUpper_byte_ascii: "(of_char c :: nat) < 128 \<Longrightarrow> (of_char (toUpper_byte c) :: nat) < 128"
  by (auto simp: toUpper_byte_def of_char_of)

lemma space_is_asciiSpace: "asciiSpace (CHR '' '')"
  by (simp add: asciiSpace_def)

lemma filter_dropWhile_commute:
  "(\<And>x. \<not> Q x \<Longrightarrow> P x) \<Longrightarrow> filter Q (dropWhile P s) = dropWhile P (filter Q s)"
  by (induction s) auto

lemma dropWhile_filter_space:
  "dropWhile asciiSpace (filter (\<lambda>x. x \<noteq> CHR '' '') s) =
   filter (\<lambda>x. x \<noteq> CHR '' '') (dropWhile asciiSpace s)"
  by (rule filter_dropWhile_commute [symmetric]) (simp add: space_is_asciiSpace)

lemma TrimSpace_filter:
  "TrimSpace (filter (\<lambda>x. x \<noteq> CHR '' '') s) = filter (\<lambda>x. x \<noteq> CHR '' '') (TrimSpace s)"
  unfolding TrimSpace_def
  by (simp only: dropWhile_filter_space rev_filter)

lemma asciiSpace_comp_toUpper: "asciiSpace \<circ> toUpper_byte = asciiSpace"
  by (rule ext) (simp add: asciiSpace_toUpper)

lemma dropWhile_map_toUpper:
  "dropWhile asciiSpace (map toUpper_byte s) = map toUpper_byte (dropWhile asciiSpace s)"
  by (simp add: dropWhile_map asciiSpace_comp_toUpper)

lemma TrimSpace_map_toUpper:
  "TrimSpace (map toUpper_byte s) = map toUpper_byte (TrimSpace s)"
  unfolding TrimSpace_def
  by (simp only: dropWhile_map_toUpper rev_map)

lemma filter_map_toUpper:
  "filter (\<lambda>x. x \<noteq> CHR '' '') (map toUpper_byte s) =
   map toUpper_byte (filter (\<lambda>x. x \<noteq> CHR '' '') s)"
  by (induction s) (auto simp: toUpper_byte_space)

lemma TrimSpace_ends:
  "TrimSpace s = [] \<or> (\<not> asciiSpace (hd (TrimSpace s)) \<and> \<not> asciiSpace (last (TrimSpace s)))"
proof (cases "TrimSpace s = []")
  case True
  then show ?thesis by simp
next
  case False
  define t where "t = dropWhile asciiSpace s"
  define u where "u = dropWhile asciiSpace (rev t)"
  have ts: "TrimSpace s = rev u"
    by (simp add: TrimSpace_def t_def u_def)
  with False have u: "u \<noteq> []" by simp
  then have t: "t \<noteq> []" by (auto simp: u_def)
  from u have hd_u: "\<not> asciiSpace (hd u)"
    unfolding u_def by (rule hd_dropWhile)
  from u obtain x where x: "x \<in> set (rev t)" "\<not> asciiSpace x"
    by (auto simp: u_def dropWhile_eq_Nil_conv)
  then have "last u = last (rev t)"
    unfolding u_def by (rule dropWhile_last)
  also have "\<dots> = hd t" using t by (simp add: last_rev)
  finally have last_u: "\<not> asciiSpace (last u)"
    using t hd_dropWhile [of asciiSpace s] by (simp add: t_def)
  show ?thesis using u hd_u last_u by (simp add: ts hd_rev last_rev)
qed

lemma TrimSpace_id:
  assumes "s = [] \<or> (\<not> asciiSpace (hd s) \<and> \<not> asciiSpace (last s))"
  shows "TrimSpace s = s"
proof (cases "s = []")
  case True
  then show ?thesis by (simp add: TrimSpace_def)
next
  case False
  with assms have h: "\<not> asciiSpace (hd s)" and l: "\<not> asciiSpace (last s)" by auto
  from False h have "dropWhile asciiSpace s = s"
    by (simp add: dropWhile_eq_self_iff)
  moreover from False l have "dropWhile asciiSpace (rev s) = rev s"
    by (simp add: dropWhile_eq_self_iff hd_rev)
  ultimately show ?thesis by (simp add: TrimSpace_def)
qed

lemma TrimSpace_idem: "TrimSpace (TrimSpace s) = TrimSpace s"
  by (rule TrimSpace_id) (rule TrimSpace_ends)

lemma Normalise_eq:
  "Normalise s = map toUpper_byte (filter (\<lambda>x. x \<noteq> CHR '' '') (TrimSpace s))"
  by (simp add: Normalise_def ToUpper_def ReplaceAll_delete)

lemma Normalise_eq_trim_last:
  "Normalise s = TrimSpace (map toUpper_byte (filter (\<lambda>x. x \<noteq> CHR '' '') s))"
  by (simp add: Normalise_eq TrimSpace_map_toUpper TrimSpace_filter)

lemma Normalise_idem: "Normalise (Normalise s) = Normalise s"
proof -
  let ?F = "filter (\<lambda>x. x \<noteq> CHR '' '')"
  let ?U = "map toUpper_byte"
  have "Normalise (Normalise s) = TrimSpace (?U (?F (TrimSpace (?U (?F s)))))"
    by (simp only: Normalise_eq_trim_last)
  also have "\<dots> = TrimSpace (TrimSpace (?U (?U (?F (?F s)))))"
    by (simp only: TrimSpace_map_toUpper TrimSpace_filter filter_map_toUpper)
  also have "\<dots> = TrimSpace (?U (?F s))"
    by (simp add: TrimSpace_idem toUpper_byte_idem comp_def)
  finally show ?thesis by (simp only: Normalise_eq_trim_last)
qed


lemma Normalise_no_space: "CHR '' '' \<notin> set (Normalise s)"
proof
  assume "CHR '' '' \<in> set (Normalise s)"
  then have "CHR '' '' \<in> toUpper_byte ` set (filter (\<lambda>x. x \<noteq> CHR '' '') (TrimSpace s))"
    by (simp only: Normalise_eq set_map)
  then obtain x where x: "x \<in> set (filter (\<lambda>x. x \<noteq> CHR '' '') (TrimSpace s))"
    and eq: "CHR '' '' = toUpper_byte x"
    by (rule imageE)
  from eq have "toUpper_byte x = CHR '' ''" by (rule sym)
  then have "x = CHR '' ''" by (simp only: toUpper_byte_space)
  moreover from x have "x \<noteq> CHR '' ''" by simp
  ultimately show False by (rule notE [rotated])
qed

lemma Normalise_no_lower: "c \<in> set (Normalise s) \<Longrightarrow> \<not> isLower c"
  by (auto simp: Normalise_eq toUpper_byte_not_lower)

lemma Normalise_ends:
  "Normalise s = [] \<or> (\<not> asciiSpace (hd (Normalise s)) \<and> \<not> asciiSpace (last (Normalise s)))"
  unfolding Normalise_eq_trim_last by (rule TrimSpace_ends)

lemma Normalise_insensitive:
  "map toUpper_byte (filter (\<lambda>x. x \<noteq> CHR '' '') s) =
   map toUpper_byte (filter (\<lambda>x. x \<noteq> CHR '' '') t) \<Longrightarrow> Normalise s = Normalise t"
  by (simp only: Normalise_eq_trim_last)

lemma Normalise_example1: "Normalise ''sw1a 1aa'' = ''SW1A1AA''"
  by code_simp

lemma Normalise_example2: "Normalise ''SW1A1AA'' = ''SW1A1AA''"
  by code_simp

text \<open>
  Claim C6, as amended. For every ASCII string, \<open>Normalise\<close> gives the string without its
  leading and trailing whitespace, without its space characters and with its letters in
  upper case: the result has no space character, no lower-case letter and no whitespace at
  either end. \<open>Normalise\<close> is idempotent; two strings that agree once their space characters
  are deleted and their letters uppercased have the same normal form; the key of
  \<^verbatim>\<open>QueryPostcode\<close> is the same function; and "sw1a 1aa" and "SW1A1AA" both give
  "SW1A1AA". Whitespace other than the space character stays where it is inside the string.
\<close>

theorem Normalise_spaces_case:
  assumes "isASCII s" and "isASCII t"
  shows "Normalise s = map toUpper_byte (filter (\<lambda>c. c \<noteq> CHR '' '') (TrimSpace s))
    \<and> Normalise (Normalise s) = Normalise s
    \<and> (map toUpper_byte (filter (\<lambda>c. c \<noteq> CHR '' '') s) =
          map toUpper_byte (filter (\<lambda>c. c \<noteq> CHR '' '') t) \<longrightarrow> Normalise s = Normalise t)
    \<and> CHR '' '' \<notin> set (Normalise s)
    \<and> (\<forall>c \<in> set (Normalise s). \<not> isLower c)
    \<and> (Normalise s = [] \<or>
          (\<not> asciiSpace (hd (Normalise s)) \<and> \<not> asciiSpace (last (Normalise s))))
    \<and> QueryPostcode_pc s = Normalise s
    \<and> Normalise ''sw1a 1aa'' = ''SW1A1AA'' \<and> Normalise ''SW1A1AA'' = ''SW1A1AA''"
proof (intro conjI)
  show "Normalise s = map toUpper_byte (filter (\<lambda>c. c \<noteq> CHR '' '') (TrimSpace s))"
    by (rule Normalise_eq)
  show "Normalise (Normalise s) = Normalise s"
    by (rule Normalise_idem)
  show "map toUpper_byte (filter (\<lambda>c. c \<noteq> CHR '' '') s) =
          map toUpper_byte (filter (\<lambda>c. c \<noteq> CHR '' '') t) \<longrightarrow> Normalise s = Normalise t"
    using Normalise_insensitive [of s t] by (rule impI)
  show "CHR '' '' \<notin> set (Normalise s)"
    by (rule Normalise_no_space)
  show "\<forall>c \<in> set (Normalise s). \<not> isLower c"
    using Normalise_no_lower [of _ s] by (rule ballI)
  show "Normalise s = [] \<or>
          (\<not> asciiSpace (hd (Normalise s)) \<and> \<not> asciiSpace (last (Normalise s)))"
    by (rule Normalise_ends)
  show "QueryPostcode_pc s = Normalise s"
    by (simp only: QueryPostcode_pc_def Normalise_def)
  show "Normalise ''sw1a 1aa'' = ''SW1A1AA''"
    by (rule Normalise_example1)
  show "Normalise ''SW1A1AA'' = ''SW1A1AA''"
    by (rule Normalise_example2)
qed

text \<open>The theorem at "sw1a 1aa" and "SW1A1AA".\<close>

theorem Normalise_spaces_case_witness:
  "isASCII ''sw1a 1aa'' \<and> isASCII ''SW1A1AA''
   \<and> map toUpper_byte (filter (\<lambda>c. c \<noteq> CHR '' '') ''sw1a 1aa'') =
       map toUpper_byte (filter (\<lambda>c. c \<noteq> CHR '' '') ''SW1A1AA'')
   \<and> Normalise ''sw1a 1aa'' = Normalise ''SW1A1AA''
   \<and> Normalise (Normalise ''sw1a 1aa'') = Normalise ''sw1a 1aa''
   \<and> Normalise ''sw1a 1aa'' \<noteq> []"
proof -
  have a: "isASCII ''sw1a 1aa''" and b: "isASCII ''SW1A1AA''"
    by (simp_all add: isASCII_def)
  have c: "map toUpper_byte (filter (\<lambda>c. c \<noteq> CHR '' '') ''sw1a 1aa'') =
       map toUpper_byte (filter (\<lambda>c. c \<noteq> CHR '' '') ''SW1A1AA'')"
    by code_simp
  note th = Normalise_spaces_case [OF a b]
  from th have imp:
    "map toUpper_byte (filter (\<lambda>c. c \<noteq> CHR '' '') ''sw1a 1aa'') =
       map toUpper_byte (filter (\<lambda>c. c \<noteq> CHR '' '') ''SW1A1AA'')
     \<longrightarrow> Normalise ''sw1a 1aa'' = Normalise ''SW1A1AA''"
    by (elim conjE)
  from imp c have d: "Normalise ''sw1a 1aa'' = Normalise ''SW1A1AA''" by (rule mp)
  from th have e: "Normalise (Normalise ''sw1a 1aa'') = Normalise ''sw1a 1aa''"
    by (elim conjE)
  from th have "Normalise ''sw1a 1aa'' = ''SW1A1AA''" by (elim conjE)
  then have f: "Normalise ''sw1a 1aa'' \<noteq> []" by simp
  show ?thesis using a b c d e f by (intro conjI)
qed

lemma Normalise_tab_value:
  "Normalise (''SW1A'' @ [CHR 0x09] @ ''1AA'') = ''SW1A'' @ [CHR 0x09] @ ''1AA''"
  by code_simp

text \<open>
  Against claim C6 as stated (all whitespace removed): a tab inside the postcode is
  whitespace and stays in the normal form, so "SW1A<tab>1AA" and "SW1A1AA", which differ
  only in spacing, have different normal forms.
\<close>

theorem Normalise_keeps_inner_tab:
  "isASCII (''SW1A'' @ [CHR 0x09] @ ''1AA'')
   \<and> asciiSpace (CHR 0x09)
   \<and> Normalise (''SW1A'' @ [CHR 0x09] @ ''1AA'') = ''SW1A'' @ [CHR 0x09] @ ''1AA''
   \<and> CHR 0x09 \<in> set (Normalise (''SW1A'' @ [CHR 0x09] @ ''1AA''))
   \<and> Normalise (''SW1A'' @ [CHR 0x09] @ ''1AA'') \<noteq> Normalise ''SW1A1AA''"
proof (intro conjI)
  show "isASCII (''SW1A'' @ [CHR 0x09] @ ''1AA'')"
    by (simp add: isASCII_def)
  show "asciiSpace (CHR 0x09)"
    by (simp add: asciiSpace_def)
  show "Normalise (''SW1A'' @ [CHR 0x09] @ ''1AA'') = ''SW1A'' @ [CHR 0x09] @ ''1AA''"
    by (rule Normalise_tab_value)
  show "CHR 0x09 \<in> set (Normalise (''SW1A'' @ [CHR 0x09] @ ''1AA''))"
    unfolding Normalise_tab_value by simp
  show "Normalise (''SW1A'' @ [CHR 0x09] @ ''1AA'') \<noteq> Normalise ''SW1A1AA''"
    unfolding Normalise_tab_value Normalise_example2 by simp
qed

section \<open>Properties of the column names\<close>

lemma headers_loop_eq:
  "headers_loop i headers = take i headers @ map column_name (drop i headers)"
proof (induction i headers rule: headers_loop.induct)
  case (1 i headers)
  show ?case
  proof (cases "i < length headers")
    case True
    let ?hs = "headers[i := column_name (headers ! i)]"
    have "headers_loop i headers = headers_loop (Suc i) ?hs"
      using True by (subst headers_loop.simps) (simp add: column_name_def)
    also have "\<dots> = take (Suc i) ?hs @ map column_name (drop (Suc i) ?hs)"
      using "1.IH" [OF True] by (simp add: column_name_def)
    also have "take (Suc i) ?hs = take i headers @ [column_name (headers ! i)]"
      using True by (simp add: take_Suc_conv_app_nth)
    also have "drop (Suc i) ?hs = drop (Suc i) headers"
      by simp
    finally show ?thesis
      using True by (simp add: Cons_nth_drop_Suc [symmetric])
  next
    case False
    then show ?thesis
      by (subst headers_loop.simps) (simp)
  qed
qed

lemma headers_loop_map: "headers_loop 0 headers = map column_name headers"
  by (simp add: headers_loop_eq)

lemma toLower_byte_not_upper: "\<not> isUpper (toLower_byte c)"
  using nat_of_char_less_256 [of c]
  by (auto simp: isUpper_def toLower_byte_def of_char_of)

lemma toLower_byte_space: "toLower_byte c = CHR '' '' \<longleftrightarrow> c = CHR '' ''"
  using nat_of_char_less_256 [of c]
  by (subst (1 2) char_eq_of_char) (auto simp: toLower_byte_def of_char_of)

lemma toLower_underscore: "toLower_byte (CHR ''_'') = CHR ''_''"
  by (simp add: toLower_byte_def)

lemma isAlnum_not_space: "isAlnum c \<Longrightarrow> \<not> asciiSpace c"
  by (auto simp: isAlnum_def asciiSpace_of_char Let_def)

lemma underscore_not_space: "\<not> asciiSpace (CHR ''_'')"
  by (simp add: asciiSpace_def)

lemma column_name_eq:
  "column_name h =
     map toLower_byte (TrimSpace (map (\<lambda>c. if c = CHR '' '' then CHR ''_'' else c) h))"
  by (simp add: column_name_def ToLower_def ReplaceAll_char)

lemma set_TrimSpace: "x \<in> set (TrimSpace s) \<Longrightarrow> x \<in> set s"
  unfolding TrimSpace_def by (auto dest!: set_dropWhileD)

lemma TrimSpace_no_space:
  assumes "\<And>x. x \<in> set s \<Longrightarrow> \<not> asciiSpace x"
  shows "TrimSpace s = s"
proof (rule TrimSpace_id)
  show "s = [] \<or> (\<not> asciiSpace (hd s) \<and> \<not> asciiSpace (last s))"
    using assms [of "hd s"] assms [of "last s"] by (cases "s = []") simp_all
qed

lemma replaced_not_old:
  "x \<in> set (map (\<lambda>c. if c = a then b else c) h) \<Longrightarrow> a \<noteq> b \<Longrightarrow> x \<noteq> a"
  by auto

lemma column_name_no_space: "CHR '' '' \<notin> set (column_name h)"
proof
  assume "CHR '' '' \<in> set (column_name h)"
  then have "CHR '' '' \<in> toLower_byte `
      set (TrimSpace (map (\<lambda>c. if c = CHR '' '' then CHR ''_'' else c) h))"
    by (simp only: column_name_eq set_map)
  then obtain x
    where x: "x \<in> set (TrimSpace (map (\<lambda>c. if c = CHR '' '' then CHR ''_'' else c) h))"
    and eq: "CHR '' '' = toLower_byte x"
    by (rule imageE)
  from eq have "toLower_byte x = CHR '' ''" by (rule sym)
  then have "x = CHR '' ''" by (simp only: toLower_byte_space)
  moreover from x have "x \<in> set (map (\<lambda>c. if c = CHR '' '' then CHR ''_'' else c) h)"
    by (rule set_TrimSpace)
  then have "x \<noteq> CHR '' ''"
    by (rule replaced_not_old) simp
  ultimately show False by (rule notE [rotated])
qed

lemma column_name_no_upper: "c \<in> set (column_name h) \<Longrightarrow> \<not> isUpper c"
  unfolding column_name_eq set_map by (erule imageE) (simp add: toLower_byte_not_upper)

lemma space_not_alnum: "\<not> isAlnum (CHR '' '')"
  by (simp add: isAlnum_def)

lemma column_char_spec:
  "isAlnum c \<or> c = CHR '' '' \<Longrightarrow>
   toLower_byte (if c = CHR '' '' then CHR ''_'' else c) =
   (if isAlnum c then toLower_byte c else CHR ''_'')"
  by (cases "c = CHR '' ''") (simp_all add: space_not_alnum toLower_underscore)

lemma replaced_alnum_not_space:
  "isAlnum c \<or> c = CHR '' '' \<Longrightarrow> \<not> asciiSpace (if c = CHR '' '' then CHR ''_'' else c)"
  by (cases "c = CHR '' ''") (simp_all add: underscore_not_space isAlnum_not_space)

lemma column_name_spec:
  assumes "\<And>c. c \<in> set h \<Longrightarrow> isAlnum c \<or> c = CHR '' ''"
  shows "column_name h = spec_column_name h"
proof -
  let ?f = "\<lambda>c. if c = CHR '' '' then CHR ''_'' else c"
  have "\<not> asciiSpace x" if "x \<in> set (map ?f h)" for x
  proof -
    from that obtain c where "c \<in> set h" and "x = ?f c"
      unfolding set_map by (rule imageE)
    then show ?thesis
      using replaced_alnum_not_space [of c] assms [of c] by simp
  qed
  then have "TrimSpace (map ?f h) = map ?f h"
    by (rule TrimSpace_no_space)
  moreover have "map toLower_byte (map ?f h) = spec_column_name h"
    unfolding spec_column_name_def map_map comp_def
    by (rule map_cong [OF refl]) (rule column_char_spec, rule assms)
  ultimately show ?thesis by (simp only: column_name_eq)
qed


lemma column_name_example1: "column_name ''Post Code'' = ''post_code''"
  by code_simp

lemma column_name_example2: "column_name ''EE-4G'' = ''ee-4g''"
  by code_simp

lemma spec_column_name_example2: "spec_column_name ''EE-4G'' = ''ee_4g''"
  by code_simp

text \<open>
  Claim C7, as amended. For every header row of ASCII names, the loop gives every column its
  name with each space character replaced by an underscore, leading and trailing whitespace
  trimmed and letters in lower case; every other character is kept. The row keeps its length,
  no name has a space character or an upper-case letter, and on a header made of letters,
  digits and space characters only the name is the one the specification describes.
\<close>

theorem headers_loop_column_names:
  assumes "list_all isASCII headers"
  shows "headers_loop 0 headers =
      map (\<lambda>h. map toLower_byte
        (TrimSpace (map (\<lambda>c. if c = CHR '' '' then CHR ''_'' else c) h))) headers
    \<and> length (headers_loop 0 headers) = length headers
    \<and> (\<forall>n \<in> set (headers_loop 0 headers). CHR '' '' \<notin> set n \<and> (\<forall>c \<in> set n. \<not> isUpper c))
    \<and> (\<forall>i < length headers. (\<forall>c \<in> set (headers ! i). isAlnum c \<or> c = CHR '' '')
          \<longrightarrow> headers_loop 0 headers ! i = spec_column_name (headers ! i))"
proof (intro conjI)
  show "headers_loop 0 headers =
      map (\<lambda>h. map toLower_byte
        (TrimSpace (map (\<lambda>c. if c = CHR '' '' then CHR ''_'' else c) h))) headers"
    unfolding headers_loop_map by (rule map_cong [OF refl]) (rule column_name_eq)
  show "length (headers_loop 0 headers) = length headers"
    unfolding headers_loop_map by (rule length_map)
  show "\<forall>n \<in> set (headers_loop 0 headers). CHR '' '' \<notin> set n \<and> (\<forall>c \<in> set n. \<not> isUpper c)"
  proof
    fix n assume "n \<in> set (headers_loop 0 headers)"
    then obtain h where "n = column_name h"
      unfolding headers_loop_map set_map by (rule imageE)
    then show "CHR '' '' \<notin> set n \<and> (\<forall>c \<in> set n. \<not> isUpper c)"
      using column_name_no_space [of h] column_name_no_upper [of _ h] by blast
  qed
  show "\<forall>i < length headers. (\<forall>c \<in> set (headers ! i). isAlnum c \<or> c = CHR '' '')
          \<longrightarrow> headers_loop 0 headers ! i = spec_column_name (headers ! i)"
  proof (intro allI impI)
    fix i assume i: "i < length headers"
      and alnum: "\<forall>c \<in> set (headers ! i). isAlnum c \<or> c = CHR '' ''"
    from i have "headers_loop 0 headers ! i = column_name (headers ! i)"
      unfolding headers_loop_map by (rule nth_map)
    also from alnum have "\<dots> = spec_column_name (headers ! i)"
      by (intro column_name_spec) (rule bspec)
    finally show "headers_loop 0 headers ! i = spec_column_name (headers ! i)" .
  qed
qed

text \<open>The theorem on the header row "Post Code", "EE-4G".\<close>

theorem headers_loop_column_names_witness:
  "list_all isASCII [''Post Code'', ''EE-4G'']
   \<and> headers_loop 0 [''Post Code'', ''EE-4G''] = [''post_code'', ''ee-4g'']
   \<and> headers_loop 0 [''Post Code'', ''EE-4G''] ! 0 = spec_column_name ''Post Code''"
proof -
  have a: "list_all isASCII [''Post Code'', ''EE-4G'']"
    by (simp add: isASCII_def)
  have b: "\<forall>c \<in> set ([''Post Code'', ''EE-4G''] ! 0). isAlnum c \<or> c = CHR '' ''"
    by (simp add: isAlnum_def)
  note th = headers_loop_column_names [OF a]
  from th have all: "\<forall>i < length [''Post Code'', ''EE-4G''].
      (\<forall>c \<in> set ([''Post Code'', ''EE-4G''] ! i). isAlnum c \<or> c = CHR '' '')
        \<longrightarrow> headers_loop 0 [''Post Code'', ''EE-4G''] ! i
          = spec_column_name ([''Post Code'', ''EE-4G''] ! i)"
    by (elim conjE)
  have len: "0 < length [''Post Code'', ''EE-4G'']"
    by simp
  have c: "headers_loop 0 [''Post Code'', ''EE-4G''] ! 0
          = spec_column_name ([''Post Code'', ''EE-4G''] ! 0)"
    by (rule all [rule_format, of 0], rule len, rule b [THEN bspec])
  have d: "headers_loop 0 [''Post Code'', ''EE-4G''] = [''post_code'', ''ee-4g'']"
    unfolding headers_loop_map by (simp add: column_name_example1 column_name_example2)
  from c have e: "headers_loop 0 [''Post Code'', ''EE-4G''] ! 0 = spec_column_name ''Post Code''"
    by (simp only: nth_Cons_0)
  from a d e show ?thesis by (intro conjI)
qed

text \<open>
  Against claim C7 as stated (every non-alphanumeric character becomes an underscore): the
  header "EE-4G" becomes "ee-4g", where the specification's normalisation gives "ee_4g".
\<close>

theorem headers_loop_keeps_hyphen:
  "headers_loop 0 [''EE-4G''] = [''ee-4g'']
   \<and> map spec_column_name [''EE-4G''] = [''ee_4g'']
   \<and> headers_loop 0 [''EE-4G''] \<noteq> map spec_column_name [''EE-4G'']"
proof (intro conjI)
  show a: "headers_loop 0 [''EE-4G''] = [''ee-4g'']"
    unfolding headers_loop_map by (simp add: column_name_example2)
  show b: "map spec_column_name [''EE-4G''] = [''ee_4g'']"
    by (simp add: spec_column_name_example2)
  show "headers_loop 0 [''EE-4G''] \<noteq> map spec_column_name [''EE-4G'']"
    unfolding a b by simp
qed

end
